theory Spec2Isabelle
  imports Complex_Main "HOL-Library.Sublist"
begin

section \<open>JavaScript values\<close>

text \<open>
  A JavaScript string is a sequence of UTF-16 code units; each code unit is modelled by
  its number. \<open>js\<close> embeds an ASCII literal of the source.
\<close>

type_synonym js_string = "nat list"

definition js :: "string \<Rightarrow> js_string" where
  "js s = map of_char s"

section \<open>The player component (src/src/App.jsx and the root-level draft)\<close>

text \<open>
  Both components keep the same \<open>useState\<close> cells; \<open>library\<close> and \<open>bgColor\<close>
  exist in src/src/App.jsx only. Times and the volume are JavaScript numbers, modelled
  as reals. \<open>audioRef\<close> is \<open>None\<close> while no audio element is mounted; otherwise it
  holds the value last assigned to the element's \<open>currentTime\<close>.
\<close>

record meta =
  title :: js_string
  artist :: js_string
  album :: js_string
  pictureUrl :: "js_string option"

record track =
  track_id :: js_string
  track_src :: js_string
  track_name :: js_string
  track_meta :: "meta option"
  track_quality :: js_string

datatype repeat_mode = RepeatOff | RepeatOne | RepeatAll

record audio_element =
  currentTime :: real

record player =
  tracks :: "track list"
  library :: "(js_string \<times> (js_string \<times> track list) list) list"
  index :: int
  playing :: bool
  shuffle :: bool
  repeatMode :: repeat_mode
  volume :: real
  muted :: bool
  progress :: real
  duration :: real
  bgColor :: js_string
  audioRef :: "audio_element option"

text \<open>The state after the first render: the \<open>useState\<close> defaults, the audio element mounted.\<close>

definition initial :: player where
  "initial = \<lparr>tracks = [], library = [], index = 0, playing = False, shuffle = False,
     repeatMode = RepeatOff, volume = 9 / 10, muted = False, progress = 0, duration = 0,
     bgColor = js ''#0a0f29'', audioRef = Some \<lparr>currentTime = 0\<rparr>\<rparr>"

subsection \<open>Sequencer: nextIndex and prevIndex\<close>

text \<open>
  An outcome of \<open>Math.random()\<close> is a binary64 number \<open>u\<close> with \<open>0 \<le> u < 1\<close>. Every
  such number is \<open>m / 2 ^ k\<close> for naturals \<open>m < 2 ^ 53\<close>, \<open>m < 2 ^ k\<close> and
  \<open>k \<le> 1074\<close>; it is modelled by the pair \<open>(m, k)\<close>.
\<close>

type_synonym fraction = "nat \<times> nat"

definition is_random :: "fraction \<Rightarrow> bool" where
  "is_random u = (fst u < 2 ^ 53 \<and> fst u < 2 ^ snd u \<and> snd u \<le> 1074)"

text \<open>The number of binary digits of \<open>p\<close>.\<close>

fun bit_length :: "nat \<Rightarrow> nat" where
  "bit_length p = (if p = 0 then 0 else Suc (bit_length (p div 2)))"

declare bit_length.simps [simp del]

text \<open>
  Rounding a natural number to 53 significant binary digits, to nearest, ties to even:
  what the binary64 product does to the numerator \<open>m * n\<close> of the exact product
  \<open>m * n / 2 ^ k\<close> (\<open>n\<close> is an array length, below \<open>2 ^ 32\<close>, so the result is in the
  normal range whenever digits are dropped). A numerator below \<open>2 ^ 53\<close> is kept as it
  is.
\<close>

definition round53 :: "nat \<Rightarrow> nat" where
  "round53 p =
     (if p < 2 ^ 53 then p
      else let s = bit_length p - 53; q = p div 2 ^ s; r = p mod 2 ^ s; h = 2 ^ (s - 1)
           in if h < r \<or> (r = h \<and> odd q) then (q + 1) * 2 ^ s else q * 2 ^ s)"

text \<open>
  \<open>Math.floor(Math.random() * tracks.length)\<close> for the outcome \<open>u = m / 2 ^ k\<close> and the
  length \<open>n\<close>: the product is the binary64 product, the number
  \<open>round53 (m * n) / 2 ^ k\<close>, and \<open>Math.floor\<close> of it is exact.
\<close>

definition random_index :: "fraction \<Rightarrow> nat \<Rightarrow> int" where
  "random_index u n = int (round53 (fst u * n) div 2 ^ snd u)"

text \<open>
  The loop \<open>do { r = ... } while (r === index)\<close>. The list holds the outcomes of the
  successive calls of \<open>Math.random()\<close>; the loop returns at the first outcome that gives
  an index other than \<open>index\<close>. \<open>None\<close>: every outcome listed was rejected, and the
  loop is still running.
\<close>

fun draw_other :: "fraction list \<Rightarrow> nat \<Rightarrow> int \<Rightarrow> int option" where
  "draw_other [] n i = None"
| "draw_other (u # us) n i =
     (let r = random_index u n in if r = i then draw_other us n i else Some r)"

definition nextIndex :: "fraction list \<Rightarrow> player \<Rightarrow> int option" where
  "nextIndex us s =
     (if repeatMode s = RepeatOne then Some (index s)
      else if shuffle s \<and> 1 < length (tracks s)
        then draw_other us (length (tracks s)) (index s)
      else if index s + 1 < int (length (tracks s)) then Some (index s + 1)
      else Some (if repeatMode s = RepeatAll then 0 else index s))"

definition prevIndex :: "fraction list \<Rightarrow> player \<Rightarrow> int option" where
  "prevIndex us s =
     (if shuffle s \<and> 1 < length (tracks s)
        then draw_other us (length (tracks s)) (index s)
      else Some (if 0 < index s then index s - 1
                 else if repeatMode s = RepeatAll then int (length (tracks s)) - 1
                 else 0))"

subsection \<open>Session operations\<close>

text \<open>\<open>Array.prototype.findIndex\<close>: the first position that satisfies \<open>P\<close>, or \<open>-1\<close>.\<close>

fun findIndex :: "('a \<Rightarrow> bool) \<Rightarrow> 'a list \<Rightarrow> int" where
  "findIndex P [] = - 1"
| "findIndex P (x # xs) =
     (if P x then 0 else (let i = findIndex P xs in if i < 0 then - 1 else i + 1))"

text \<open>\<open>removeTrack\<close> of src/src/App.jsx: the list is filtered, nothing else is set.\<close>

definition removeTrack :: "js_string \<Rightarrow> player \<Rightarrow> player" where
  "removeTrack tid s = s\<lparr>tracks := filter (\<lambda>t. track_id t \<noteq> tid) (tracks s)\<rparr>"

text \<open>\<open>removeTrack\<close> of the root-level draft component, which also moves the selection.\<close>

definition removeTrack_local :: "js_string \<Rightarrow> player \<Rightarrow> player" where
  "removeTrack_local tid s =
     (let prev = tracks s;
          idx = findIndex (\<lambda>t. track_id t = tid) prev;
          nxt = filter (\<lambda>t. track_id t \<noteq> tid) prev
      in if idx = index s
           then s\<lparr>tracks := nxt,
                  index := max 0 (min idx (int (length nxt) - 1)),
                  playing := False\<rparr>
         else if idx < index s
           then s\<lparr>tracks := nxt, index := max 0 (index s - 1)\<rparr>
         else s\<lparr>tracks := nxt\<rparr>)"

text \<open>\<open>clearAll\<close> of src/src/App.jsx.\<close>

definition clearAll :: "player \<Rightarrow> player" where
  "clearAll s = s\<lparr>tracks := [], library := [], index := 0, playing := False,
     progress := 0, duration := 0\<rparr>"

text \<open>\<open>clearAll\<close> of the root-level draft component, which has no library.\<close>

definition clearAll_local :: "player \<Rightarrow> player" where
  "clearAll_local s = s\<lparr>tracks := [], index := 0, playing := False,
     progress := 0, duration := 0\<rparr>"

text \<open>
  \<open>setCurrentTime\<close>, the same in both components: without an audio element it returns
  at once; otherwise the value is assigned to the element and stored as the position.
\<close>

definition setCurrentTime :: "real \<Rightarrow> player \<Rightarrow> player" where
  "setCurrentTime val s =
     (case audioRef s of
        None \<Rightarrow> s
      | Some a \<Rightarrow> s\<lparr>audioRef := Some (a\<lparr>currentTime := val\<rparr>), progress := val\<rparr>)"

text \<open>The seek bar that calls \<open>setCurrentTime\<close> has \<open>min={0}\<close> and \<open>max={Math.max(1, duration)}\<close>.\<close>

definition seekbar_max :: "player \<Rightarrow> real" where
  "seekbar_max s = max 1 (duration s)"

text \<open>
  The media-session \<open>seekto\<close> handler of the root-level draft component:
  \<open>audio.currentTime = Math.min(Math.max(0, d.seekTime || 0), duration || 0)\<close>, where
  \<open>d.seekTime\<close> may be \<open>undefined\<close>.
\<close>

definition seekto_local :: "real option \<Rightarrow> player \<Rightarrow> player" where
  "seekto_local seekTime s =
     (case audioRef s of
        None \<Rightarrow> s
      | Some a \<Rightarrow>
          s\<lparr>audioRef := Some (a\<lparr>currentTime :=
              min (max 0 (case seekTime of None \<Rightarrow> 0 | Some t \<Rightarrow> t)) (duration s)\<rparr>)\<rparr>)"

subsection \<open>readTags\<close>

text \<open>
  What \<open>jsmediatags.read(file, {onSuccess, onError})\<close> can do, as \<open>readTags\<close> sees it:
  call \<open>onSuccess\<close> with the tags, call \<open>onError\<close>, throw (caught by the
  \<open>try\<close>), or call neither. A tag field is \<open>undefined\<close> (\<open>None\<close>) or a string.
\<close>

record picture =
  pic_data :: "nat list option"
  pic_format :: "js_string option"

record tags =
  tag_title :: "js_string option"
  tag_artist :: "js_string option"
  tag_album :: "js_string option"
  tag_picture :: "picture option"

record file_object =
  file_name :: js_string
  file_type :: js_string

datatype tag_read = OnSuccess tags | OnError | Throws | NoCallback

datatype 'a promise = Resolved 'a | Rejected | Pending

text \<open>\<open>a || b\<close> for \<open>a\<close> a string or \<open>undefined\<close>: the empty string is falsy.\<close>

definition or_else :: "js_string option \<Rightarrow> js_string \<Rightarrow> js_string" where
  "or_else a b = (case a of None \<Rightarrow> b | Some x \<Rightarrow> if x = [] then b else x)"

text \<open>
  \<open>tags.picture && tags.picture.data && tags.picture.format\<close>, then the URL of the blob.
  \<open>createObjectURL\<close> stands for \<open>URL.createObjectURL(new Blob([bytes], {type}))\<close>.
\<close>

definition picture_url ::
  "(nat list \<Rightarrow> js_string \<Rightarrow> js_string) \<Rightarrow> tags \<Rightarrow> js_string option" where
  "picture_url createObjectURL tg =
     (case tag_picture tg of
        None \<Rightarrow> None
      | Some p \<Rightarrow>
          (case pic_data p of
             None \<Rightarrow> None
           | Some d \<Rightarrow>
               (case pic_format p of
                  None \<Rightarrow> None
                | Some fmt \<Rightarrow> if fmt = [] then None else Some (createObjectURL d fmt))))"

definition readTags ::
  "(nat list \<Rightarrow> js_string \<Rightarrow> js_string) \<Rightarrow> tag_read \<Rightarrow> file_object \<Rightarrow> meta promise" where
  "readTags createObjectURL rd f =
     (case rd of
        OnSuccess tg \<Rightarrow>
          Resolved \<lparr>title = or_else (tag_title tg) (file_name f),
                    artist = or_else (tag_artist tg) (js ''Unknown Artist''),
                    album = or_else (tag_album tg) [],
                    pictureUrl = picture_url createObjectURL tg\<rparr>
      | OnError \<Rightarrow>
          Resolved \<lparr>title = file_name f, artist = [], album = [], pictureUrl = None\<rparr>
      | Throws \<Rightarrow>
          Resolved \<lparr>title = file_name f, artist = [], album = [], pictureUrl = None\<rparr>
      | NoCallback \<Rightarrow> Pending)"

text \<open>
  What the playlist and the now-playing panel print for a track:
  \<open>t.meta?.title || t.name\<close> and \<open>t.meta?.artist || "Unknown Artist"\<close>.
\<close>

definition title_label :: "track \<Rightarrow> js_string" where
  "title_label t = or_else (map_option title (track_meta t)) (track_name t)"

definition artist_label :: "track \<Rightarrow> js_string" where
  "artist_label t = or_else (map_option artist (track_meta t)) (js ''Unknown Artist'')"

section \<open>The server (src/server.mjs)\<close>

subsection \<open>The file name filter\<close>

text \<open>
  The test \<^verbatim>\<open>f.match(/\\.(mp3|flac|wav|aac|ogg)$/i)\<close>. In a regular expression literal
  the two backslashes are one literal backslash (code unit 92), and the unescaped dot is
  any code unit but a line terminator. Under the \<open>i\<close> flag two code units match when
  they canonicalise to the same code unit; an ASCII letter is matched by its two cases
  only, since canonicalisation never maps a code unit from 128 on below 128.
\<close>

definition lineTerminator :: "nat \<Rightarrow> bool" where
  "lineTerminator c = (c = 10 \<or> c = 13 \<or> c = 8232 \<or> c = 8233)"

definition canonicalize :: "nat \<Rightarrow> nat" where
  "canonicalize c = (if 97 \<le> c \<and> c \<le> 122 then c - 32 else c)"

definition extensions :: "string list" where
  "extensions = [''mp3'', ''flac'', ''wav'', ''aac'', ''ogg'']"

text \<open>The pattern matched at the start of \<open>cs\<close>, with \<open>$\<close> at the end of \<open>cs\<close>.\<close>

fun match_here :: "js_string \<Rightarrow> bool" where
  "match_here (b # c # ext) =
     (b = 92 \<and> \<not> lineTerminator c \<and>
      map canonicalize ext \<in> set (map (map canonicalize \<circ> js) extensions))"
| "match_here _ = False"

text \<open>\<open>match\<close> looks for the pattern from every position of the name.\<close>

definition audio_name :: "js_string \<Rightarrow> bool" where
  "audio_name f = list_ex match_here (suffixes f)"

subsection \<open>indexLibrary\<close>

text \<open>
  The directory tree under \<open>MUSIC_DIR\<close>, as \<open>readdirSync\<close> and \<open>statSync\<close> show it:
  a finite tree of named entries, each a directory (with its entries, in the order
  \<open>readdirSync\<close> lists them) or not.
\<close>

datatype entry = File js_string | Dir js_string "entry list"

record srv_track =
  srv_id :: js_string
  srv_name :: js_string
  srv_path :: js_string
  srv_relPath :: js_string

text \<open>
  \<open>path.join(dir, f)\<close> for a normalised \<open>dir\<close> without a trailing separator and an
  entry name \<open>f\<close>, and \<open>path.relative(baseDir, fullPath)\<close> for a \<open>fullPath\<close> built by
  such joins from \<open>baseDir\<close> (code unit 47 is the separator).
\<close>

definition path_join :: "js_string \<Rightarrow> js_string \<Rightarrow> js_string" where
  "path_join dir f = dir @ [47] @ f"

definition path_relative :: "js_string \<Rightarrow> js_string \<Rightarrow> js_string" where
  "path_relative baseDir fullPath = drop (length baseDir + 1) fullPath"

text \<open>
  \<open>walk\<close> over the entries of \<open>dir\<close>; the last argument is the global \<open>tracks\<close>, returned
  updated. \<open>uuidv4\<close> gives the identifier drawn by the \<open>k\<close>-th call since \<open>tracks\<close> was
  reset; every push makes one call.
\<close>

fun walk ::
  "(nat \<Rightarrow> js_string) \<Rightarrow> js_string \<Rightarrow> js_string \<Rightarrow> entry list \<Rightarrow> srv_track list
     \<Rightarrow> srv_track list" where
  "walk uuidv4 baseDir dir [] ts = ts"
| "walk uuidv4 baseDir dir (Dir f sub # es) ts =
     walk uuidv4 baseDir dir es (walk uuidv4 baseDir (path_join dir f) sub ts)"
| "walk uuidv4 baseDir dir (File f # es) ts =
     walk uuidv4 baseDir dir es
       (if audio_name f
        then ts @ [\<lparr>srv_id = uuidv4 (length ts), srv_name = f,
                     srv_path = path_join dir f,
                     srv_relPath = path_relative baseDir (path_join dir f)\<rparr>]
        else ts)"

definition indexLibrary :: "(nat \<Rightarrow> js_string) \<Rightarrow> js_string \<Rightarrow> entry list \<Rightarrow> srv_track list" where
  "indexLibrary uuidv4 baseDir es = walk uuidv4 baseDir baseDir es []"

text \<open>The names of the entries that are not directories, at any depth.\<close>

fun file_names :: "entry list \<Rightarrow> js_string list" where
  "file_names [] = []"
| "file_names (File f # es) = f # file_names es"
| "file_names (Dir f sub # es) = file_names sub @ file_names es"

subsection \<open>GET /api/library\<close>

text \<open>
  \<open>res.json(tracks)\<close> sends \<open>JSON.stringify(tracks)\<close>: an array with one object per
  track, whose members are the track's own properties in insertion order.
\<close>

datatype json = JString js_string | JArray "json list" | JObject "(string \<times> json) list"

definition track_json :: "srv_track \<Rightarrow> json" where
  "track_json t =
     JObject [(''id'', JString (srv_id t)), (''name'', JString (srv_name t)),
              (''path'', JString (srv_path t)), (''relPath'', JString (srv_relPath t))]"

definition api_library :: "srv_track list \<Rightarrow> json" where
  "api_library ts = JArray (map track_json ts)"

fun array_items :: "json \<Rightarrow> json list" where
  "array_items (JArray xs) = xs"
| "array_items _ = []"

fun json_keys :: "json \<Rightarrow> string list" where
  "json_keys (JObject kvs) = map fst kvs"
| "json_keys _ = []"

section \<open>Example data\<close>

definition example_track :: "string \<Rightarrow> track" where
  "example_track n = \<lparr>track_id = js n, track_src = js ''blob:'' @ js n,
     track_name = js n @ js ''.mp3'', track_meta = None, track_quality = js ''MP3''\<rparr>"

text \<open>A playlist of three tracks with the ids a, b and c, nothing else touched.\<close>

definition three_tracks :: player where
  "three_tracks =
     initial\<lparr>tracks := [example_track ''a'', example_track ''b'', example_track ''c'']\<rparr>"

text \<open>The same playlist, playing a clip whose known duration is half a second.\<close>

definition short_clip :: player where
  "short_clip = three_tracks\<lparr>playing := True, duration := 1 / 2\<rparr>"

definition example_file :: file_object where
  "example_file = \<lparr>file_name = js ''song.mp3'', file_type = js ''audio/mpeg''\<rparr>"

definition example_url :: "nat list \<Rightarrow> js_string \<Rightarrow> js_string" where
  "example_url d fmt = js ''blob:cover''"

definition example_uuid :: "nat \<Rightarrow> js_string" where
  "example_uuid k = js ''id-'' @ [48 + k]"

text \<open>A music directory with ordinary names.\<close>

definition plain_dir :: "entry list" where
  "plain_dir =
     [File (js ''song.mp3''),
      Dir (js ''album'') [File (js ''b.flac''), File (js ''cover.jpg'')]]"

text \<open>A music directory with one file whose name has a backslash before the dot.\<close>

definition odd_dir :: "entry list" where
  "odd_dir =
     [File (js ''song.mp3''),
      Dir (js ''album'') [File (js ''b'' @ [92] @ js ''.flac'')]]"

section \<open>The sequencer\<close>

subsection \<open>The binary64 product stays below the length\<close>

lemma bit_length_bounds:
  "0 < p \<Longrightarrow> 2 ^ (bit_length p - 1) \<le> p \<and> p < 2 ^ bit_length p"
proof (induction p rule: bit_length.induct)
  case (1 p)
  show ?case
  proof (cases "p div 2 = 0")
    case True
    with "1.prems" have "p = 1" by (simp add: div_eq_0_iff)
    then show ?thesis
      by (simp add: bit_length.simps [of "Suc 0"] bit_length.simps [of 0])
  next
    case False
    with 1 have IH: "2 ^ (bit_length (p div 2) - 1) \<le> p div 2"
      "p div 2 < 2 ^ bit_length (p div 2)"
      by simp_all
    have pos: "0 < bit_length (p div 2)"
      using False by (simp add: bit_length.simps [of "p div 2"])
    have bl: "bit_length p = Suc (bit_length (p div 2))"
      using "1.prems" by (simp add: bit_length.simps [of p])
    from pos have "(2::nat) ^ bit_length (p div 2) = 2 * 2 ^ (bit_length (p div 2) - 1)"
      by (cases "bit_length (p div 2)") simp_all
    with IH(1) have "2 ^ bit_length (p div 2) \<le> 2 * (p div 2)" by simp
    also have "\<dots> \<le> p" by simp
    finally have lo: "2 ^ (bit_length p - 1) \<le> p" by (simp add: bl)
    from IH(2) have "p < 2 * 2 ^ bit_length (p div 2)" by linarith
    then have hi: "p < 2 ^ bit_length p" by (simp add: bl)
    from lo hi show ?thesis by simp
  qed
qed

text \<open>
  From \<open>2 ^ 53\<close> on, \<open>round53 p\<close> is a multiple of the unit \<open>2 ^ (bit_length p - 53)\<close>
  at most half a unit away from \<open>p\<close>.
\<close>

lemma round53_near:
  assumes "2 ^ 53 \<le> p"
  shows "round53 p \<le> p + 2 ^ (bit_length p - 54)"
    and "p \<le> round53 p + 2 ^ (bit_length p - 54)"
    and "2 ^ (bit_length p - 53) dvd round53 p"
proof -
  define s where "s = bit_length p - 53"
  define q where "q = p div 2 ^ s"
  define r where "r = p mod 2 ^ s"
  define h :: nat where "h = 2 ^ (s - 1)"
  from assms have "0 < p" by (rule less_le_trans [rotated]) simp
  then have "p < 2 ^ bit_length p" by (simp add: bit_length_bounds)
  with assms have "(2::nat) ^ 53 < 2 ^ bit_length p" by (rule le_less_trans)
  then have "53 < bit_length p" by (rule power_less_imp_less_exp [rotated]) simp
  then have s: "0 < s" and hs: "bit_length p - 54 = s - 1" by (simp_all add: s_def)
  from s have two: "(2::nat) ^ s = 2 * h" by (cases s) (simp_all add: h_def)
  have p: "q * 2 ^ s + r = p" by (simp only: q_def r_def div_mult_mod_eq)
  have val: "round53 p = (if h < r \<or> (r = h \<and> odd q) then (q + 1) * 2 ^ s else q * 2 ^ s)"
    using assms by (simp add: round53_def Let_def s_def q_def r_def h_def)
  have near: "round53 p \<le> p + h \<and> p \<le> round53 p + h"
  proof (cases "h < r \<or> (r = h \<and> odd q)")
    case True
    then have "h \<le> r" by auto
    have "r < 2 ^ s" by (simp add: r_def)
    then have "r \<le> 2 * h" by (simp add: two)
    from True val have up: "round53 p = q * 2 ^ s + 2 * h" by (simp add: two)
    from p \<open>h \<le> r\<close> \<open>r \<le> 2 * h\<close> up show ?thesis by linarith
  next
    case False
    then have "r \<le> h" by auto
    from False val have down: "round53 p = q * 2 ^ s" by simp
    from p \<open>r \<le> h\<close> down show ?thesis by linarith
  qed
  from near show "round53 p \<le> p + 2 ^ (bit_length p - 54)"
    by (simp only: hs h_def)
  from near show "p \<le> round53 p + 2 ^ (bit_length p - 54)"
    by (simp only: hs h_def)
  from val show "2 ^ (bit_length p - 53) dvd round53 p"
    by (simp add: s_def)
qed

lemma round53_below:
  assumes "m < 2 ^ 53" and "m < 2 ^ k" and "0 < n"
  shows "round53 (m * n) < n * 2 ^ k"
proof -
  from assms(2) have "Suc m \<le> 2 ^ k" by simp
  then have "Suc m * n \<le> 2 ^ k * n" by (rule mult_le_mono1)
  then have top: "m * n + n \<le> n * 2 ^ k" by (simp add: mult.commute)
  show ?thesis
  proof (cases "m * n < 2 ^ 53")
    case True
    then have "round53 (m * n) = m * n" by (simp add: round53_def)
    with assms(2,3) show ?thesis by simp
  next
    case False
    then have big: "2 ^ 53 \<le> m * n" by simp
    define b where "b = bit_length (m * n)"
    from big have pos: "0 < m * n" by (rule less_le_trans [rotated]) simp
    from bit_length_bounds [OF pos] have lo: "2 ^ (b - 1) \<le> m * n" and hi: "m * n < 2 ^ b"
      by (simp_all only: b_def)
    from big hi have "(2::nat) ^ 53 < 2 ^ b" by (rule le_less_trans)
    then have b: "53 < b" by (rule power_less_imp_less_exp [rotated]) simp
    then have e: "b - 1 = 53 + (b - 54)" by simp
    have pw: "(2::nat) ^ (b - 1) = 2 ^ 53 * 2 ^ (b - 54)"
      unfolding e by (rule power_add)
    from lo have "2 ^ 53 * 2 ^ (b - 54) \<le> m * n" unfolding pw .
    also have "m * n < 2 ^ 53 * n" using assms(1,3) by simp
    finally have "(2::nat) ^ (b - 54) < n" by simp
    with round53_near(1) [OF big] have "round53 (m * n) < m * n + n" by (simp add: b_def)
    with top show ?thesis by simp
  qed
qed

lemma random_index_range:
  assumes "is_random u" and "0 < n"
  shows "0 \<le> random_index u n \<and> random_index u n < int n"
proof -
  from assms have "round53 (fst u * n) < n * 2 ^ snd u"
    by (simp add: is_random_def round53_below)
  then have "round53 (fst u * n) div 2 ^ snd u < n"
    by (simp add: less_mult_imp_div_less)
  then show ?thesis by (simp add: random_index_def)
qed

text \<open>
  The rounding matters: for \<open>u = 3752999689475413 / 2 ^ 52\<close> and six tracks the exact
  product is just below 5, the binary64 product is 5, and so is the index drawn.
\<close>

lemma bit_length_example: "bit_length 22517998136852478 = 55"
  by (simp add: bit_length.simps)

lemma random_index_rounds_up:
  "is_random (3752999689475413, 52) \<and> random_index (3752999689475413, 52) 6 = 5
   \<and> 3752999689475413 * 6 div 2 ^ 52 = (4::nat)"
  by (simp add: is_random_def random_index_def round53_def bit_length_example)

subsection \<open>The draw\<close>

lemma draw_other_find:
  "draw_other us n i
     = map_option (\<lambda>u. random_index u n) (find (\<lambda>u. random_index u n \<noteq> i) us)"
  by (induction us) (simp_all add: Let_def)

lemma draw_other_sound:
  assumes "\<forall>u\<in>set us. is_random u" "0 < n" "draw_other us n i = Some r"
  shows "0 \<le> r \<and> r < int n \<and> r \<noteq> i"
  using assms
proof (induction us)
  case Nil
  then show ?case by simp
next
  case (Cons u us)
  show ?case
  proof (cases "random_index u n = i")
    case True
    with Cons show ?thesis by simp
  next
    case False
    with Cons.prems have "r = random_index u n" by (simp add: Let_def)
    with False Cons.prems random_index_range [of u n] show ?thesis by simp
  qed
qed

text \<open>The loop returns as soon as one outcome gives another index, and not before.\<close>

lemma draw_other_returns:
  assumes "\<exists>u\<in>set us. random_index u n \<noteq> i"
  shows "\<exists>r. draw_other us n i = Some r"
  using assms by (induction us) (auto simp: Let_def)

lemma draw_other_running:
  assumes "\<forall>u\<in>set us. random_index u n = i"
  shows "draw_other us n i = None"
  using assms by (induction us) (auto simp: Let_def)

lemma draw_other_differs: "draw_other us n i \<noteq> Some i"
  by (induction us) (auto simp: Let_def)

text \<open>
  Claim C1 as stated fails: with three tracks, the second one current, shuffle off and
  repeat-one on, \<open>prevIndex\<close> returns the first track, not the current one.
\<close>

theorem prevIndex_repeat_one_moves:
  "prevIndex [] (three_tracks\<lparr>index := 1, repeatMode := RepeatOne\<rparr>)
     \<noteq> Some (index (three_tracks\<lparr>index := 1, repeatMode := RepeatOne\<rparr>))"
  by (simp add: prevIndex_def three_tracks_def initial_def)

text \<open>
  Claim C1, amended: for every non-empty catalog with repeat-one on, \<open>nextIndex\<close> returns
  the current index unchanged, whatever the shuffle flag and the random outcomes.
  \<open>prevIndex\<close> has no repeat-one branch: with shuffle off, or a single track, it returns
  \<open>current - 1\<close> when \<open>current > 0\<close> and \<open>0\<close> otherwise. With shuffle on and more than
  one track it returns a drawn index that differs from the current one: it returns the
  index given by the first outcome of \<open>Math.random()\<close> whose index is not the current
  one, so it returns once there is such an outcome, and what it returns is not the
  current index and lies in \<open>[0, count)\<close>.
\<close>

theorem repeat_one_next_keeps_prev_steps:
  assumes "tracks s \<noteq> []" and "repeatMode s = RepeatOne"
  shows "nextIndex us s = Some (index s)
       \<and> (\<not> (shuffle s \<and> 1 < length (tracks s)) \<longrightarrow>
             prevIndex us s = Some (if 0 < index s then index s - 1 else 0))
       \<and> (shuffle s \<and> 1 < length (tracks s) \<longrightarrow>
             prevIndex us s
               = map_option (\<lambda>u. random_index u (length (tracks s)))
                   (find (\<lambda>u. random_index u (length (tracks s)) \<noteq> index s) us)
           \<and> ((\<exists>u\<in>set us. random_index u (length (tracks s)) \<noteq> index s) \<longrightarrow>
                 (\<exists>r. prevIndex us s = Some r))
           \<and> (\<forall>r. prevIndex us s = Some r \<longrightarrow>
                 r \<noteq> index s
               \<and> ((\<forall>u\<in>set us. is_random u) \<longrightarrow> 0 \<le> r \<and> r < int (length (tracks s)))))"
proof -
  let ?n = "length (tracks s)"
  have nx: "nextIndex us s = Some (index s)"
    using assms by (simp add: nextIndex_def)
  have step: "\<not> (shuffle s \<and> 1 < ?n) \<Longrightarrow>
      prevIndex us s = Some (if 0 < index s then index s - 1 else 0)"
    using assms by (auto simp: prevIndex_def)
  have n: "0 < ?n" using assms(1) by simp
  have pv: "shuffle s \<and> 1 < ?n \<Longrightarrow> prevIndex us s = draw_other us ?n (index s)"
    by (simp add: prevIndex_def)
  show ?thesis
    using nx step pv draw_other_find [of us ?n "index s"]
      draw_other_returns [of us ?n "index s"]
      draw_other_differs [of us ?n "index s"]
      draw_other_sound [of us ?n "index s", OF _ n]
    by auto
qed

text \<open>
  The amended claim C1 on three tracks with the second one current: \<open>nextIndex\<close> stays,
  \<open>prevIndex\<close> steps back, and under shuffle the outcome 1/2 gives the current index and
  is rejected, the outcome 1/4 gives the first track.
\<close>

theorem repeat_one_next_keeps_prev_steps_witness:
  "nextIndex [] (three_tracks\<lparr>index := 1, repeatMode := RepeatOne\<rparr>) = Some 1
   \<and> prevIndex [] (three_tracks\<lparr>index := 1, repeatMode := RepeatOne\<rparr>) = Some 0
   \<and> prevIndex [(1, 1), (1, 2)]
        (three_tracks\<lparr>index := 1, shuffle := True, repeatMode := RepeatOne\<rparr>) = Some 0"
  using repeat_one_next_keeps_prev_steps
          [of "three_tracks\<lparr>index := 1, repeatMode := RepeatOne\<rparr>" "[]"]
        repeat_one_next_keeps_prev_steps
          [of "three_tracks\<lparr>index := 1, shuffle := True, repeatMode := RepeatOne\<rparr>"
              "[(1, 1), (1, 2)]"]
  by (simp add: three_tracks_def initial_def random_index_def round53_def)

text \<open>
  Claim C5: with shuffle on and more than one track (and, for \<open>nextIndex\<close>, repeat-one
  off), every index that \<open>nextIndex\<close> or \<open>prevIndex\<close> returns lies in \<open>[0, count)\<close> and
  differs from the current index, for all outcomes of \<open>Math.random()\<close> (binary64
  numbers \<open>0 \<le> u < 1\<close>); and both return an index once one outcome gives an index other
  than the current one.
\<close>

theorem shuffle_draw_in_range_and_differs:
  assumes "\<forall>u\<in>set us. is_random u"
    and "shuffle s" and "1 < length (tracks s)"
  shows "(repeatMode s \<noteq> RepeatOne \<longrightarrow>
            (\<forall>r. nextIndex us s = Some r \<longrightarrow>
               0 \<le> r \<and> r < int (length (tracks s)) \<and> r \<noteq> index s))
       \<and> (\<forall>r. prevIndex us s = Some r \<longrightarrow>
               0 \<le> r \<and> r < int (length (tracks s)) \<and> r \<noteq> index s)
       \<and> ((\<exists>u\<in>set us. random_index u (length (tracks s)) \<noteq> index s) \<longrightarrow>
               (repeatMode s \<noteq> RepeatOne \<longrightarrow> (\<exists>r. nextIndex us s = Some r))
             \<and> (\<exists>r. prevIndex us s = Some r))"
proof -
  let ?n = "length (tracks s)"
  have n: "0 < ?n" using assms(3) by (cases "tracks s") simp_all
  have nx: "repeatMode s \<noteq> RepeatOne \<Longrightarrow> nextIndex us s = draw_other us ?n (index s)"
    using assms(2,3) by (simp add: nextIndex_def)
  have pv: "prevIndex us s = draw_other us ?n (index s)"
    using assms(2,3) by (simp add: prevIndex_def)
  show ?thesis
    using nx pv draw_other_sound [OF assms(1) n] draw_other_returns [of us ?n "index s"]
    by auto
qed

text \<open>
  Claim C5 on three tracks with the second one current: the outcome 1/2 gives the
  current index and is rejected, the outcome 7/8 gives the third track.
\<close>

theorem shuffle_draw_in_range_and_differs_witness:
  "nextIndex [(1, 1), (7, 3)] (three_tracks\<lparr>index := 1, shuffle := True\<rparr>) = Some 2
   \<and> prevIndex [(1, 1), (7, 3)] (three_tracks\<lparr>index := 1, shuffle := True\<rparr>) = Some 2
   \<and> (2::int) < int (length (tracks (three_tracks\<lparr>index := 1, shuffle := True\<rparr>)))
   \<and> (2::int) \<noteq> index (three_tracks\<lparr>index := 1, shuffle := True\<rparr>)"
  using shuffle_draw_in_range_and_differs
          [of "[(1, 1), (7, 3)]" "three_tracks\<lparr>index := 1, shuffle := True\<rparr>"]
  by (simp add: nextIndex_def prevIndex_def three_tracks_def initial_def random_index_def
      round53_def is_random_def)

text \<open>
  Claim C6: on a non-empty catalog with the last track current, shuffle off and
  repeat-one off, \<open>nextIndex\<close> returns \<open>0\<close> under repeat-all and the current index
  under repeat-off.
\<close>

theorem nextIndex_at_last_track:
  assumes "tracks s \<noteq> []" and "index s = int (length (tracks s)) - 1"
    and "\<not> shuffle s" and "repeatMode s \<noteq> RepeatOne"
  shows "nextIndex us s = Some (if repeatMode s = RepeatAll then 0 else index s)"
  using assms by (simp add: nextIndex_def)

text \<open>Claim C6 on three tracks with the third one current, under repeat-off and repeat-all.\<close>

theorem nextIndex_at_last_track_witness:
  "nextIndex [] (three_tracks\<lparr>index := 2\<rparr>) = Some 2
   \<and> nextIndex [] (three_tracks\<lparr>index := 2, repeatMode := RepeatAll\<rparr>) = Some 0"
  using nextIndex_at_last_track [of "three_tracks\<lparr>index := 2\<rparr>" "[]"]
        nextIndex_at_last_track [of "three_tracks\<lparr>index := 2, repeatMode := RepeatAll\<rparr>" "[]"]
  by (simp add: three_tracks_def initial_def)

text \<open>
  Claim C9 at the empty catalog of the initial state: \<open>nextIndex\<close> returns the current
  index \<open>0\<close> for every shuffle flag and repeat mode, and neither function consults the
  random outcomes; but under repeat-all \<open>prevIndex\<close> returns \<open>tracks.length - 1\<close>,
  which is \<open>-1\<close>, not the current index.
\<close>

theorem prevIndex_empty_repeat_all:
  "nextIndex us (initial\<lparr>shuffle := sh, repeatMode := m\<rparr>) = Some 0
   \<and> prevIndex us (initial\<lparr>shuffle := sh, repeatMode := RepeatOff\<rparr>) = Some 0
   \<and> prevIndex us (initial\<lparr>shuffle := sh, repeatMode := RepeatOne\<rparr>) = Some 0
   \<and> prevIndex us (initial\<lparr>shuffle := sh, repeatMode := RepeatAll\<rparr>) = Some (- 1)
   \<and> tracks (initial\<lparr>shuffle := sh, repeatMode := RepeatAll\<rparr>) = []
   \<and> index (initial\<lparr>shuffle := sh, repeatMode := RepeatAll\<rparr>) = 0"
  by (simp add: nextIndex_def prevIndex_def initial_def)

section \<open>Session operations\<close>

subsection \<open>setCurrentTime\<close>

lemma setCurrentTime_unmounted:
  "audioRef s = None \<Longrightarrow> setCurrentTime val s = s"
  by (simp add: setCurrentTime_def)

lemma setCurrentTime_mounted:
  "audioRef s = Some a \<Longrightarrow>
     setCurrentTime val s = s\<lparr>audioRef := Some (a\<lparr>currentTime := val\<rparr>), progress := val\<rparr>"
  by (simp add: setCurrentTime_def)

text \<open>Seeking never changes the playing flag, nor the duration.\<close>

lemma setCurrentTime_playing:
  "playing (setCurrentTime val s) = playing s \<and> duration (setCurrentTime val s) = duration s"
  by (simp add: setCurrentTime_def split: option.splits)

text \<open>
  From a duration of one second on, the seek bar's range is \<open>[0, duration]\<close>, and a value
  from the seek bar gives a position within the duration.
\<close>

lemma setCurrentTime_seekbar_long:
  assumes "1 \<le> duration s" and "0 \<le> val" and "val \<le> seekbar_max s"
    and "0 \<le> progress s" and "progress s \<le> duration s"
  shows "0 \<le> progress (setCurrentTime val s)
       \<and> progress (setCurrentTime val s) \<le> duration (setCurrentTime val s)"
  using assms by (simp add: setCurrentTime_def seekbar_max_def split: option.splits)

text \<open>The draft's \<open>seekto\<close> handler does clamp the time it assigns into \<open>[0, duration]\<close>.\<close>

lemma seekto_local_clamps:
  assumes "0 \<le> duration s" and "audioRef s \<noteq> None"
  shows "\<exists>a. audioRef (seekto_local seekTime s) = Some a
           \<and> 0 \<le> currentTime a \<and> currentTime a \<le> duration s"
  using assms by (auto simp: seekto_local_def split: option.splits)

text \<open>
  Claim C3 on a clip of known duration 0.5, playing, with the audio element mounted: the
  seek bar's maximum is \<open>Math.max(1, 0.5) = 1\<close>, and \<open>setCurrentTime(1)\<close> assigns 1 to the
  element and stores 1 as the position, beyond the duration, where the claim gives a
  position clamped to 0.5. All else, the playing flag included, stays as it was.
\<close>

theorem setCurrentTime_beyond_duration:
  "seekbar_max short_clip = 1
   \<and> duration short_clip = 1 / 2
   \<and> setCurrentTime 1 short_clip
       = short_clip\<lparr>audioRef := Some \<lparr>currentTime = 1\<rparr>, progress := 1\<rparr>
   \<and> progress (setCurrentTime 1 short_clip) = 1
   \<and> duration (setCurrentTime 1 short_clip) < progress (setCurrentTime 1 short_clip)
   \<and> playing (setCurrentTime 1 short_clip) = playing short_clip"
  by (simp add: setCurrentTime_def seekbar_max_def short_clip_def three_tracks_def
      initial_def)

subsection \<open>removeTrack\<close>

lemma findIndex_range: "- 1 \<le> findIndex P xs \<and> findIndex P xs < int (length xs)"
  by (induction xs) (auto simp: Let_def)

lemma findIndex_missing: "findIndex P xs < 0 \<longleftrightarrow> (\<forall>x\<in>set xs. \<not> P x)"
proof (induction xs)
  case Nil
  show ?case by simp
next
  case (Cons x xs)
  have "- 1 \<le> findIndex P xs" by (simp add: findIndex_range)
  with Cons show ?case by (auto simp: Let_def)
qed

lemma findIndex_found: "\<exists>x\<in>set xs. P x \<Longrightarrow> 0 \<le> findIndex P xs"
  using findIndex_missing [of P xs] by auto

lemma findIndex_first:
  "i < length xs \<Longrightarrow> P (xs ! i) \<Longrightarrow> \<forall>j<i. \<not> P (xs ! j) \<Longrightarrow> findIndex P xs = int i"
proof (induction xs arbitrary: i)
  case Nil
  then show ?case by simp
next
  case (Cons x xs)
  show ?case
  proof (cases i)
    case 0
    with Cons.prems show ?thesis by simp
  next
    case (Suc k)
    with Cons.prems have "\<not> P x" by auto
    moreover from Suc Cons.prems have "\<forall>j<k. \<not> P (xs ! j)" by auto
    with Suc Cons.prems Cons.IH [of k] have "findIndex P xs = int k" by simp
    ultimately show ?thesis using Suc by (simp add: Let_def)
  qed
qed

text \<open>With unique ids, \<open>findIndex\<close> by the id of the track at a position gives that position.\<close>

lemma findIndex_distinct:
  assumes "distinct (map f xs)" and "i < length xs"
  shows "findIndex (\<lambda>x. f x = f (xs ! i)) xs = int i"
proof (rule findIndex_first)
  show "i < length xs" by fact
  show "f (xs ! i) = f (xs ! i)" by simp
  show "\<forall>j<i. \<not> f (xs ! j) = f (xs ! i)"
  proof (intro allI impI)
    fix j assume "j < i"
    with assms have "map f xs ! j \<noteq> map f xs ! i"
      by (simp add: nth_eq_iff_index_eq del: nth_map)
    with \<open>j < i\<close> assms(2) show "\<not> f (xs ! j) = f (xs ! i)" by simp
  qed
qed

text \<open>
  The root-level draft component follows the rule of claim C4. Here \<open>idx\<close> is the
  position of the removed track, and the id is present in the catalog.
\<close>

lemma removeTrack_local_rule:
  assumes "tid \<in> track_id ` set (tracks s)"
  defines "idx \<equiv> findIndex (\<lambda>t. track_id t = tid) (tracks s)"
  defines "s' \<equiv> removeTrack_local tid s"
  shows "tracks s' = filter (\<lambda>t. track_id t \<noteq> tid) (tracks s)"
    and "idx = index s \<Longrightarrow>
           playing s' = False \<and>
           index s' = (if tracks s' = [] then 0 else min idx (int (length (tracks s')) - 1))"
    and "idx < index s \<Longrightarrow> index s' = index s - 1 \<and> playing s' = playing s"
    and "index s < idx \<Longrightarrow> index s' = index s \<and> playing s' = playing s"
proof -
  have found: "0 \<le> idx"
    unfolding idx_def using assms(1) by (intro findIndex_found) auto
  show "tracks s' = filter (\<lambda>t. track_id t \<noteq> tid) (tracks s)"
    by (simp add: s'_def removeTrack_local_def Let_def)
  show "idx = index s \<Longrightarrow>
           playing s' = False \<and>
           index s' = (if tracks s' = [] then 0 else min idx (int (length (tracks s')) - 1))"
    using found
    by (cases "filter (\<lambda>t. track_id t \<noteq> tid) (tracks s)")
       (simp_all add: s'_def removeTrack_local_def Let_def idx_def)
  show "idx < index s \<Longrightarrow> index s' = index s - 1 \<and> playing s' = playing s"
    using found by (simp add: s'_def removeTrack_local_def Let_def idx_def)
  show "index s < idx \<Longrightarrow> index s' = index s \<and> playing s' = playing s"
    by (simp add: s'_def removeTrack_local_def Let_def idx_def)
qed

text \<open>
  Claim C4 on src/src/App.jsx, three tracks with the last one current and playing:
  removing the current track leaves the index at 2, past the two tracks left, and
  playback on, where the claim gives index 1 and playback off; removing the first track
  leaves the index at 2, where the claim gives 1. The draft component gives the claim's
  values on the same inputs.
\<close>

theorem removeTrack_keeps_index_and_playing:
  "index (removeTrack (js ''c'') (three_tracks\<lparr>index := 2, playing := True\<rparr>)) = 2
   \<and> playing (removeTrack (js ''c'') (three_tracks\<lparr>index := 2, playing := True\<rparr>)) = True
   \<and> length (tracks (removeTrack (js ''c'') (three_tracks\<lparr>index := 2, playing := True\<rparr>))) = 2
   \<and> index (removeTrack (js ''a'') (three_tracks\<lparr>index := 2, playing := True\<rparr>)) = 2
   \<and> index (removeTrack_local (js ''c'') (three_tracks\<lparr>index := 2, playing := True\<rparr>)) = 1
   \<and> playing (removeTrack_local (js ''c'') (three_tracks\<lparr>index := 2, playing := True\<rparr>)) = False
   \<and> index (removeTrack_local (js ''a'') (three_tracks\<lparr>index := 2, playing := True\<rparr>)) = 1"
  by (simp add: removeTrack_def removeTrack_local_def three_tracks_def initial_def
      example_track_def js_def)

subsection \<open>clearAll\<close>

text \<open>
  Claim C10: in both components \<open>clearAll\<close> empties the tracks, sets the index to 0,
  playing to false, position and duration to 0, and leaves shuffle, the repeat mode, the
  volume and the mute flag as they were.
\<close>

theorem clearAll_resets_and_preserves:
  "tracks (clearAll s) = [] \<and> index (clearAll s) = 0 \<and> playing (clearAll s) = False
   \<and> progress (clearAll s) = 0 \<and> duration (clearAll s) = 0
   \<and> shuffle (clearAll s) = shuffle s \<and> repeatMode (clearAll s) = repeatMode s
   \<and> volume (clearAll s) = volume s \<and> muted (clearAll s) = muted s
   \<and> tracks (clearAll_local s) = [] \<and> index (clearAll_local s) = 0
   \<and> playing (clearAll_local s) = False
   \<and> progress (clearAll_local s) = 0 \<and> duration (clearAll_local s) = 0
   \<and> shuffle (clearAll_local s) = shuffle s \<and> repeatMode (clearAll_local s) = repeatMode s
   \<and> volume (clearAll_local s) = volume s \<and> muted (clearAll_local s) = muted s"
  by (simp add: clearAll_def clearAll_local_def)

section \<open>readTags\<close>

text \<open>
  Claim C7 as stated fails: when \<open>onError\<close> is called, the resolved artist is the empty
  string, not "Unknown Artist".
\<close>

theorem readTags_error_artist_not_unknown:
  "readTags example_url OnError example_file
     \<noteq> Resolved \<lparr>title = file_name example_file, artist = js ''Unknown Artist'',
                   album = js '''', pictureUrl = None\<rparr>"
  by (simp add: readTags_def js_def)

text \<open>
  Claim C7, amended: when tag reading fails, by \<open>onError\<close> or by a thrown exception,
  \<open>readTags\<close> resolves, with the file name as title, the empty string as artist and as
  album, and no cover art; a track that carries this result is listed under
  "Unknown Artist". Whatever the tag reader does, the promise is never rejected.
\<close>

theorem readTags_failure_fallback:
  "readTags createObjectURL OnError f
     = Resolved \<lparr>title = file_name f, artist = js '''', album = js '''', pictureUrl = None\<rparr>
   \<and> readTags createObjectURL Throws f
     = Resolved \<lparr>title = file_name f, artist = js '''', album = js '''', pictureUrl = None\<rparr>
   \<and> artist_label (t\<lparr>track_meta :=
        Some \<lparr>title = file_name f, artist = js '''', album = js '''', pictureUrl = None\<rparr>\<rparr>)
     = js ''Unknown Artist''
   \<and> readTags createObjectURL rd f \<noteq> Rejected"
  by (simp add: readTags_def js_def artist_label_def or_else_def split: tag_read.splits)

section \<open>The server\<close>

lemma match_here_backslash: "match_here cs \<Longrightarrow> 92 \<in> set cs"
  by (cases cs rule: match_here.cases) simp_all

lemma audio_name_backslash:
  assumes "audio_name f"
  shows "92 \<in> set f"
proof -
  from assms obtain cs where cs: "suffix cs f" "match_here cs"
    by (auto simp: audio_name_def list_ex_iff in_set_suffixes)
  from cs(2) have "92 \<in> set cs" by (rule match_here_backslash)
  with cs(1) show ?thesis by (auto simp: suffix_def)
qed

lemma walk_plain_names:
  "\<forall>f\<in>set (file_names es). 92 \<notin> set f \<Longrightarrow> walk uuidv4 baseDir dir es ts = ts"
proof (induction uuidv4 baseDir dir es ts rule: walk.induct)
  case (1 uuidv4 baseDir dir ts)
  show ?case by simp
next
  case (2 uuidv4 baseDir dir f sub es ts)
  then show ?case by simp
next
  case (3 uuidv4 baseDir dir f es ts)
  from "3.prems" have "\<not> audio_name f" using audio_name_backslash by auto
  with 3 show ?case by simp
qed

text \<open>The filter does accept a name with a backslash, one more code unit and an extension.\<close>

lemma odd_dir_indexed:
  "indexLibrary example_uuid (js ''/music'') odd_dir =
     [\<lparr>srv_id = js ''id-0'', srv_name = js ''b'' @ [92] @ js ''.flac'',
       srv_path = js ''/music/album/b'' @ [92] @ js ''.flac'',
       srv_relPath = js ''album/b'' @ [92] @ js ''.flac''\<rparr>]"
  by (simp add: indexLibrary_def odd_dir_def example_uuid_def audio_name_def js_def
      extensions_def lineTerminator_def canonicalize_def path_join_def path_relative_def)

lemma walk_names:
  "map srv_name (walk uuidv4 baseDir dir es ts)
     = map srv_name ts @ filter audio_name (file_names es)"
  by (induction uuidv4 baseDir dir es ts rule: walk.induct) simp_all

text \<open>The indexed names are the file names that pass the filter, in the order of the walk.\<close>

lemma indexLibrary_names:
  "map srv_name (indexLibrary uuidv4 baseDir es) = filter audio_name (file_names es)"
  by (simp add: indexLibrary_def walk_names)

text \<open>
  Claim C2: \<open>indexLibrary\<close> adds no file whose name is without a backslash (code unit
  92): every indexed track has the name of a file under the directory, and that name
  contains a backslash. So when no file name under the directory contains one,
  \<open>tracks\<close> is empty after indexing.
\<close>

theorem indexLibrary_plain_names_empty:
  "(\<forall>t\<in>set (indexLibrary uuidv4 baseDir es).
       srv_name t \<in> set (file_names es) \<and> 92 \<in> set (srv_name t))
   \<and> ((\<forall>f\<in>set (file_names es). 92 \<notin> set f) \<longrightarrow> indexLibrary uuidv4 baseDir es = [])"
proof (intro conjI ballI impI)
  fix t assume "t \<in> set (indexLibrary uuidv4 baseDir es)"
  then have "srv_name t \<in> set (map srv_name (indexLibrary uuidv4 baseDir es))"
    by simp
  then have "srv_name t \<in> set (file_names es)" and "audio_name (srv_name t)"
    by (simp_all add: indexLibrary_names)
  then show "srv_name t \<in> set (file_names es)" and "92 \<in> set (srv_name t)"
    by (simp_all add: audio_name_backslash)
next
  assume "\<forall>f\<in>set (file_names es). 92 \<notin> set f"
  then show "indexLibrary uuidv4 baseDir es = []"
    by (simp add: indexLibrary_def walk_plain_names)
qed

text \<open>
  Claim C2 on a directory with song.mp3 and, in a subdirectory, b.flac and cover.jpg:
  nothing is indexed.
\<close>

theorem indexLibrary_plain_names_empty_witness:
  "indexLibrary example_uuid (js ''/music'') plain_dir = []"
  using indexLibrary_plain_names_empty [of example_uuid "js ''/music''" plain_dir]
  by (simp add: plain_dir_def js_def)

text \<open>
  Claim C8 as stated fails: the one object sent for the directory with the odd file name
  has the fields id, name, path and relPath, not id, name and relativePath.
\<close>

theorem api_library_fields_not_spec:
  "array_items (api_library (indexLibrary example_uuid (js ''/music'') odd_dir)) \<noteq> []
   \<and> set (json_keys (hd (array_items (api_library
        (indexLibrary example_uuid (js ''/music'') odd_dir)))))
       \<noteq> {''id'', ''name'', ''relativePath''}"
proof -
  have "''path'' \<in> {''id'', ''name'', ''path'', ''relPath''}" by simp
  moreover have "''path'' \<notin> {''id'', ''name'', ''relativePath''}" by simp
  ultimately have
    "{''id'', ''name'', ''path'', ''relPath''} \<noteq> {''id'', ''name'', ''relativePath''}"
    by metis
  then show ?thesis
    by (simp add: odd_dir_indexed api_library_def track_json_def)
qed

text \<open>
  Claim C8, amended: for every indexed library, GET /api/library sends a JSON array with
  one object per indexed track, each with exactly the fields id, name, path and relPath,
  in this order.
\<close>

theorem api_library_fields:
  "api_library (indexLibrary uuidv4 baseDir es)
     = JArray (array_items (api_library (indexLibrary uuidv4 baseDir es)))
   \<and> length (array_items (api_library (indexLibrary uuidv4 baseDir es)))
     = length (indexLibrary uuidv4 baseDir es)
   \<and> map json_keys (array_items (api_library (indexLibrary uuidv4 baseDir es)))
     = replicate (length (indexLibrary uuidv4 baseDir es))
         [''id'', ''name'', ''path'', ''relPath'']"
  by (simp add: api_library_def track_json_def comp_def map_replicate_const)

end
